theory Spec2Isabelle
  imports Main "HOL-Library.Word"
begin

unbundle bit_operations_syntax

section \<open>usbdevs.c: descriptor decoding and reporting\<close>

text \<open>
  A shallow embedding of \<^verbatim>\<open>usbdevs.c\<close>. Output is kept at the level of the calls the
  program makes: every \<^verbatim>\<open>printf\<close>, \<^verbatim>\<open>puts\<close> and \<^verbatim>\<open>warn\<close> becomes one event holding the
  format string of the source and the values of its arguments, every \<^verbatim>\<open>ioctl\<close> and
  \<^verbatim>\<open>malloc\<close> one event holding the request. The C escapes \<^verbatim>\<open>\t\<close> and \<^verbatim>\<open>\n\<close> of the
  format strings are the characters \<open>TAB\<close> and \<open>NL\<close>.
\<close>

subsection \<open>Events, bytes and bounds-checked reads\<close>

type_synonym byte = "8 word"

datatype arg = U nat | I int | S string

datatype request =
  USB_DEVICEINFO | USB_DEVICE_GET_DDESC | USB_DEVICE_GET_CDESC | USB_DEVICE_GET_FDESC

datatype event =
  Printf string "arg list"
| Warn string "arg list"
| Ioctl request byte
| Malloc nat

text \<open>
  How a procedure stops other than by returning: a read or write outside the object
  (undefined behaviour in C; the offset is kept), or \<^verbatim>\<open>errx(1, ...)\<close>, which ends the
  process.
\<close>

datatype abort = OutOfBounds nat | Errx string

definition bnd :: "abort + 'a \<Rightarrow> ('a \<Rightarrow> abort + 'b) \<Rightarrow> abort + 'b" where
  "bnd m f = (case m of Inl a \<Rightarrow> Inl a | Inr x \<Rightarrow> f x)"

definition rd :: "'a list \<Rightarrow> nat \<Rightarrow> abort + 'a" where
  "rd buf i = (if i < length buf then Inr (buf ! i) else Inl (OutOfBounds i))"

definition TAB :: string where
  "TAB = [CHR 0x09]"

definition NL :: string where
  "NL = [CHR 0x0A]"

definition C_DESC :: byte where "C_DESC = 2"
definition S_DESC :: byte where "S_DESC = 3"
definition I_DESC :: byte where "I_DESC = 4"
definition E_DESC :: byte where "E_DESC = 5"

subsection \<open>Renderers of the sub-descriptors\<close>

text \<open>
  Each renderer gets the buffer and the offset \<open>cur\<close> of the sub-descriptor, and reads
  at fixed offsets from \<open>cur\<close>, as the C code does through \<^verbatim>\<open>*(cur + k)\<close>.
\<close>

definition print_fconfig :: "byte list \<Rightarrow> nat \<Rightarrow> abort + event list" where
  "print_fconfig buf cur =
     bnd (rd buf (cur + 5)) (\<lambda>v.
       Inr [Printf (''config %02u:'' @ NL) [U (unat v)]])"

definition print_iface :: "byte list \<Rightarrow> nat \<Rightarrow> abort + event list" where
  "print_iface buf cur =
     bnd (rd buf (cur + 2)) (\<lambda>b2.
     bnd (rd buf (cur + 3)) (\<lambda>b3.
     bnd (rd buf (cur + 4)) (\<lambda>b4.
     bnd (rd buf (cur + 5)) (\<lambda>b5.
     bnd (rd buf (cur + 6)) (\<lambda>b6.
     bnd (rd buf (cur + 7)) (\<lambda>b7.
       Inr [Printf (TAB @ '' iface: %02u, altset: %02u, numendpts: %02u, ''
                    @ ''class: %02u, subclass: %02u, protocol: %02u'' @ NL)
              [U (unat b2), U (unat b3), U (unat b4),
               U (unat b5), U (unat b6), U (unat b7)]]))))))"

text \<open>The inner \<^verbatim>\<open>switch (*(cur + 3) & 0xC)\<close> with its case labels 0, 1, 2 and 3.\<close>

definition sync_type :: "byte \<Rightarrow> event list" where
  "sync_type attr =
     (let v = attr AND 0xC in
      if v = 0 then [Printf ''none, '' []]
      else if v = 1 then [Printf ''async, '' []]
      else if v = 2 then [Printf ''adaptive, '' []]
      else if v = 3 then [Printf ''sync, '' []]
      else [])"

text \<open>The outer \<^verbatim>\<open>switch (*(cur + 3) & 0x3)\<close>.\<close>

definition transfer_type :: "byte \<Rightarrow> event list" where
  "transfer_type attr =
     (let v = attr AND 0x3 in
      if v = 0 then [Printf ''control, '' []]
      else if v = 1 then
        [Printf ''isochronous, '' [], Printf ''sync_type: '' []] @ sync_type attr
      else if v = 2 then [Printf ''bulk, '' []]
      else if v = 3 then [Printf ''interrupt, '' []]
      else [])"

text \<open>The first \<^verbatim>\<open>printf\<close> of \<^verbatim>\<open>print_endpt\<close>: address and direction.\<close>

definition endpt_addr :: "byte \<Rightarrow> nat" where
  "endpt_addr a = unat (a AND 0x3)"

definition endpt_dir :: "byte \<Rightarrow> string" where
  "endpt_dir a = (if a AND 0x7 \<noteq> 0 then ''in'' else ''out'')"

text \<open>\<^verbatim>\<open>UGETW\<close> reads two bytes, least significant first.\<close>

definition UGETW :: "byte \<Rightarrow> byte \<Rightarrow> nat" where
  "UGETW lo hi = unat lo + 256 * unat hi"

definition print_endpt :: "byte list \<Rightarrow> nat \<Rightarrow> abort + event list" where
  "print_endpt buf cur =
     bnd (rd buf (cur + 2)) (\<lambda>a.
     bnd (rd buf (cur + 3)) (\<lambda>attr.
     bnd (rd buf (cur + 4)) (\<lambda>lo.
     bnd (rd buf (cur + 5)) (\<lambda>hi.
     bnd (rd buf (cur + 6)) (\<lambda>iv.
       Inr ([Printf (TAB @ '' '' @ TAB @ '' endpt_addr: %02u, dir: %s, '')
               [U (endpt_addr a), S (endpt_dir a)]]
            @ transfer_type attr
            @ [Printf (''max_packet: %u, polling_interval: %02u'' @ NL)
                 [U (UGETW lo hi), U (unat iv)]]))))))"

text \<open>
  The loop of \<^verbatim>\<open>print_unknown\<close> over \<open>i = 0, ..., *cur - 1\<close>, as a recursion over the
  list of these indices.
\<close>

fun dump_bytes :: "byte list \<Rightarrow> nat \<Rightarrow> nat list \<Rightarrow> abort + event list" where
  "dump_bytes buf cur [] = Inr []"
| "dump_bytes buf cur (i # is) =
     bnd (rd buf (cur + i)) (\<lambda>b.
     bnd (dump_bytes buf cur is) (\<lambda>rest.
       Inr ((if i mod 10 = 0 then [Printf (NL @ TAB @ '' '') []] else [])
            @ [Printf ''0x%02x '' [U (unat b)]] @ rest)))"

definition print_unknown :: "byte list \<Rightarrow> nat \<Rightarrow> abort + event list" where
  "print_unknown buf cur =
     bnd (rd buf (cur + 1)) (\<lambda>tag.
     bnd (rd buf cur) (\<lambda>l.
     bnd (dump_bytes buf cur [0..<unat l]) (\<lambda>bytes.
       Inr ([Printf (TAB @ '' unknown: %02u'') [U (unat tag)]] @ bytes
            @ [Printf NL []]))))"

subsection \<open>The walker: the loop of \<^verbatim>\<open>print_full\<close>\<close>

text \<open>
  The \<^verbatim>\<open>switch (*(cur + 1))\<close> of the loop body; the label \<^verbatim>\<open>S_DESC\<close> shares the
  branch of \<^verbatim>\<open>default\<close>.
\<close>

definition dispatch :: "byte list \<Rightarrow> nat \<Rightarrow> abort + event list" where
  "dispatch buf cur =
     bnd (rd buf (cur + 1)) (\<lambda>tag.
       if tag = C_DESC then print_fconfig buf cur
       else if tag = I_DESC then print_iface buf cur
       else if tag = E_DESC then print_endpt buf cur
       else if tag = S_DESC then print_unknown buf cur
       else print_unknown buf cur)"

text \<open>
  \<^verbatim>\<open>for (cur = data; cur < data + wtotlen; cur += *cur)\<close>. The buffer is the allocation
  of \<open>wtotlen\<close> bytes, so \<open>wtotlen\<close> is its length. The loop may run forever: the value
  \<open>None\<close> is a walk that does not return. The accumulator holds what each
  sub-descriptor visited so far has printed, one entry per visit.
\<close>

partial_function (option) walk ::
  "byte list \<Rightarrow> nat \<Rightarrow> event list list \<Rightarrow> (abort + event list list) option" where
  "walk buf cur acc =
     (if cur < length buf then
        (case dispatch buf cur of
           Inl a \<Rightarrow> Some (Inl a)
         | Inr out \<Rightarrow>
             (case rd buf cur of
                Inl a \<Rightarrow> Some (Inl a)
              | Inr l \<Rightarrow> walk buf (cur + unat l) (acc @ [out])))
      else Some (Inr acc))"

declare walk.simps [code]

subsection \<open>Well-formed chains\<close>

text \<open>
  The number of bytes, counted from the start of a sub-descriptor, that the loop body
  reads for a sub-descriptor with tag \<open>tag\<close> and length byte \<open>l\<close>: the length and the tag,
  the fixed fields of a configuration (up to offset 5), interface (up to offset 7) or
  endpoint (up to offset 6) sub-descriptor, and \<open>l\<close> bytes for any other tag.
\<close>

definition extent :: "byte \<Rightarrow> nat \<Rightarrow> nat" where
  "extent tag l =
     (if tag = C_DESC then 6
      else if tag = I_DESC then 8
      else if tag = E_DESC then 7
      else max 2 l)"

text \<open>
  A chain is well formed from \<open>cur\<close> on when every sub-descriptor the walk reaches has a
  length byte other than 0 and the bytes read for it lie inside the buffer.
\<close>

function chain_ok :: "byte list \<Rightarrow> nat \<Rightarrow> bool" where
  "chain_ok buf cur =
     (if cur < length buf then
        (if cur + 1 < length buf then
           (if buf ! cur = 0 then False
            else if cur + extent (buf ! (cur + 1)) (unat (buf ! cur)) \<le> length buf
              then chain_ok buf (cur + unat (buf ! cur))
              else False)
         else False)
      else True)"
  by pat_completeness auto
termination
proof (relation "measure (\<lambda>(buf, cur). length buf - cur)")
  fix buf :: "byte list" and cur :: nat
  assume "cur < length buf" and "buf ! cur \<noteq> 0"
  then have "0 < unat (buf ! cur)" by (simp add: unat_gt_0)
  with \<open>cur < length buf\<close>
  show "((buf, cur + unat (buf ! cur)), (buf, cur)) \<in> measure (\<lambda>(buf, cur). length buf - cur)"
    by simp
qed simp

declare chain_ok.simps [simp del]

text \<open>
  A configuration with one interface and one endpoint, as a device returns it: a
  configuration descriptor of 9 bytes, an interface descriptor of 9 bytes and an endpoint
  descriptor of 7 bytes.
\<close>

definition sample_chain :: "byte list" where
  "sample_chain =
     [9, 2, 25, 0, 1, 1, 0, 0x80, 50,
      9, 4, 0, 0, 1, 3, 1, 1, 0,
      7, 5, 0x81, 3, 8, 0, 10]"

subsection \<open>What the program takes from its headers and from libc\<close>

text \<open>
  The constants and macros of \<^verbatim>\<open><dev/usb/usb.h>\<close> and the function \<^verbatim>\<open>strvis\<close> of libc
  (called with \<^verbatim>\<open>VIS_CSTYLE\<close>) are used by the program and declared outside it. They are
  parameters of the model, under the names the source uses.
\<close>

record usb_h =
  USB_MAX_DEVICES :: nat
  USB_SPEED_LOW :: byte
  USB_SPEED_FULL :: byte
  USB_SPEED_HIGH :: byte
  USB_SPEED_SUPER :: byte
  UPS_CURRENT_CONNECT_STATUS :: "16 word"
  UPS_PORT_ENABLED :: "16 word"
  UPS_SUSPEND :: "16 word"
  UPS_OVERCURRENT_INDICATOR :: "16 word"
  UPS_PORT_L1 :: "16 word"
  UPS_PORT_POWER :: "16 word"
  UPS_PORT_POWER_SS :: "16 word"
  UPS_PORT_LS_GET :: "16 word \<Rightarrow> 16 word"
  UPS_PORT_LS_U0 :: "16 word"
  UPS_PORT_LS_U1 :: "16 word"
  UPS_PORT_LS_U2 :: "16 word"
  UPS_PORT_LS_U3 :: "16 word"
  UPS_PORT_LS_SS_DISABLED :: "16 word"
  UPS_PORT_LS_RX_DETECT :: "16 word"
  UPS_PORT_LS_SS_INACTIVE :: "16 word"
  UPS_PORT_LS_POLLING :: "16 word"
  UPS_PORT_LS_RECOVERY :: "16 word"
  UPS_PORT_LS_HOT_RESET :: "16 word"
  UPS_PORT_LS_COMP_MOD :: "16 word"
  UPS_PORT_LS_LOOPBACK :: "16 word"
  UC_POWER_FACTOR :: nat
  UC_BUS_POWERED :: byte
  UC_SELF_POWERED :: byte
  UC_REMOTE_WAKEUP :: byte
  strvis :: "string \<Rightarrow> string"

text \<open>
  The structures the ioctls fill, with the fields the program reads. A \<^verbatim>\<open>char\<close> array
  holding a NUL-terminated string is the string before the NUL; \<open>udi_devnames\<close> is the
  array of \<^verbatim>\<open>USB_MAX_DEVNAMES\<close> names and \<open>udi_ports\<close> the array of port words, so that
  \<^verbatim>\<open>nitems(di.udi_ports)\<close> is the length of the list.
\<close>

record usb_device_info =
  udi_bus :: byte
  udi_vendorNo :: "16 word"
  udi_productNo :: "16 word"
  udi_releaseNo :: "16 word"
  udi_vendor :: string
  udi_product :: string
  udi_release :: string
  udi_serial :: string
  udi_speed :: byte
  udi_power :: "32 word"
  udi_config :: "32 word"
  udi_class :: byte
  udi_subclass :: byte
  udi_protocol :: byte
  udi_devnames :: "string list"
  udi_nports :: "32 word"
  udi_ports :: "32 word list"

record usb_device_descriptor =
  bMaxPacketSize :: byte
  bNumConfigurations :: byte
  iManufacturer :: byte

record usb_config_descriptor =
  bConfigurationValue :: byte
  bNumInterfaces :: byte
  bmAttributes :: byte
  bMaxPower :: byte
  wTotalLength :: "16 word"

text \<open>
  The kernel behind the file descriptor: what each ioctl answers for an address, and
  whether \<^verbatim>\<open>malloc\<close> of a size succeeds. An ioctl fails with \<open>errno\<close>; the program only
  tells \<^verbatim>\<open>ENXIO\<close> from the rest. \<open>get_fdesc\<close> answers with the content of the buffer
  after the call, by offset.
\<close>

datatype errno = ENXIO | EOTHER nat

record env =
  get_deviceinfo :: "byte \<Rightarrow> errno + usb_device_info"
  get_ddesc :: "byte \<Rightarrow> errno + usb_device_descriptor"
  get_cdesc :: "byte \<Rightarrow> int \<Rightarrow> errno + usb_config_descriptor"
  get_fdesc :: "byte \<Rightarrow> int \<Rightarrow> nat \<Rightarrow> errno + (nat \<Rightarrow> byte)"
  malloc_ok :: "nat \<Rightarrow> bool"

text \<open>\<^verbatim>\<open>if (errno != ENXIO) warn("addr %u", addr);\<close> after a failed ioctl.\<close>

definition warn_unless_enxio :: "errno \<Rightarrow> byte \<Rightarrow> event list" where
  "warn_unless_enxio e addr =
     (if e \<noteq> ENXIO then [Warn ''addr %u'' [U (unat addr)]] else [])"

subsection \<open>\<^verbatim>\<open>dump_device\<close>\<close>

text \<open>The global state: the array \<^verbatim>\<open>done\<close> and what has been printed and requested so far.\<close>

record state =
  done_marks :: "bool list"
  trace :: "event list"

definition speed_label :: "usb_h \<Rightarrow> byte \<Rightarrow> event list" where
  "speed_label h s =
     (if s = USB_SPEED_LOW h then [Printf ''low speed'' []]
      else if s = USB_SPEED_FULL h then [Printf ''full speed'' []]
      else if s = USB_SPEED_HIGH h then [Printf ''high speed'' []]
      else if s = USB_SPEED_SUPER h then [Printf ''super speed'' []]
      else [])"

text \<open>The first \<^verbatim>\<open>if (verbose)\<close> block.\<close>

definition verbose_info :: "usb_h \<Rightarrow> usb_device_info \<Rightarrow> event list" where
  "verbose_info h di =
     [Printf (NL @ TAB @ '' '') []]
     @ speed_label h (udi_speed di)
     @ (if udi_power di \<noteq> 0 then [Printf '', power %d mA'' [I (sint (udi_power di))]]
        else [Printf '', self powered'' []])
     @ (if udi_config di \<noteq> 0 then [Printf '', config %d'' [I (sint (udi_config di))]]
        else [Printf '', unconfigured'' []])
     @ [Printf '', rev %s (0x%hx)''
          [S (strvis h (udi_release di)), U (unat (udi_releaseNo di))]]
     @ [Printf (NL @ TAB @ '' class: %hhu, subclass: %hhu, protocol: %hhu'')
          [U (unat (udi_class di)), U (unat (udi_subclass di)), U (unat (udi_protocol di))]]
     @ (if udi_serial di \<noteq> [] then [Printf '', iSerial %s'' [S (strvis h (udi_serial di))]]
        else [])"

text \<open>The loop over \<^verbatim>\<open>di.udi_devnames\<close>.\<close>

definition driver_lines :: "usb_device_info \<Rightarrow> event list" where
  "driver_lines di =
     concat (map (\<lambda>name. if name \<noteq> [] then [Printf (TAB @ '' driver: %s'' @ NL) [S name]]
                          else [])
               (udi_devnames di))"

text \<open>The \<^verbatim>\<open>switch (UPS_PORT_LS_GET(status))\<close>.\<close>

definition link_state_label :: "usb_h \<Rightarrow> 16 word \<Rightarrow> event list" where
  "link_state_label h status =
     (let ls = UPS_PORT_LS_GET h status in
      if ls = UPS_PORT_LS_U0 h then [Printf '' U0'' []]
      else if ls = UPS_PORT_LS_U1 h then [Printf '' U1'' []]
      else if ls = UPS_PORT_LS_U2 h then [Printf '' U2'' []]
      else if ls = UPS_PORT_LS_U3 h then [Printf '' U3'' []]
      else if ls = UPS_PORT_LS_SS_DISABLED h then [Printf '' SS.disabled'' []]
      else if ls = UPS_PORT_LS_RX_DETECT h then [Printf '' Rx.detect'' []]
      else if ls = UPS_PORT_LS_SS_INACTIVE h then [Printf '' ss.inactive'' []]
      else if ls = UPS_PORT_LS_POLLING h then [Printf '' polling'' []]
      else if ls = UPS_PORT_LS_RECOVERY h then [Printf '' recovery'' []]
      else if ls = UPS_PORT_LS_HOT_RESET h then [Printf '' hot.reset'' []]
      else if ls = UPS_PORT_LS_COMP_MOD h then [Printf '' comp.mod'' []]
      else if ls = UPS_PORT_LS_LOOPBACK h then [Printf '' loopback'' []]
      else [])"

text \<open>The labels of one port, from the status word and the speed of the device.\<close>

definition port_labels :: "usb_h \<Rightarrow> byte \<Rightarrow> 16 word \<Rightarrow> event list" where
  "port_labels h speed status =
     (if status AND UPS_CURRENT_CONNECT_STATUS h \<noteq> 0 then [Printf '' connect'' []] else [])
     @ (if status AND UPS_PORT_ENABLED h \<noteq> 0 then [Printf '' enabled'' []] else [])
     @ (if status AND UPS_SUSPEND h \<noteq> 0 then [Printf '' supsend'' []] else [])
     @ (if status AND UPS_OVERCURRENT_INDICATOR h \<noteq> 0 then [Printf '' overcurrent'' []]
        else [])
     @ (if speed < USB_SPEED_SUPER h then
          (if status AND UPS_PORT_L1 h \<noteq> 0 then [Printf '' l1'' []] else [])
          @ (if status AND UPS_PORT_POWER h \<noteq> 0 then [Printf '' power'' []] else [])
        else
          (if status AND UPS_PORT_POWER_SS h \<noteq> 0 then [Printf '' power'' []] else [])
          @ link_state_label h status)"

text \<open>The body of the loop over the ports, for port index \<open>port\<close> and port word \<open>w\<close>.\<close>

definition port_line :: "usb_h \<Rightarrow> byte \<Rightarrow> nat \<Rightarrow> 32 word \<Rightarrow> event list" where
  "port_line h speed port w =
     (let status = (ucast (w AND 0xffff) :: 16 word);
          change = (ucast (drop_bit 16 w) :: 16 word)
      in [Printf (TAB @ '' port %02u: %04x.%04x'')
            [U (port + 1), U (unat change), U (unat status)]]
         @ port_labels h speed status
         @ [Printf NL []])"

fun port_lines :: "usb_h \<Rightarrow> usb_device_info \<Rightarrow> nat list \<Rightarrow> abort + event list list" where
  "port_lines h di [] = Inr []"
| "port_lines h di (port # ports) =
     bnd (rd (udi_ports di) port) (\<lambda>w.
     bnd (port_lines h di ports) (\<lambda>rest.
       Inr (port_line h (udi_speed di) port w # rest)))"

text \<open>
  The \<^verbatim>\<open>if (verbose > 1)\<close> block: \<open>nports\<close> is the minimum of the reported number of
  ports, read as unsigned, and the capacity of the array; one line per \<open>port < nports\<close>.
\<close>

definition port_tier :: "usb_h \<Rightarrow> usb_device_info \<Rightarrow> abort + event list list" where
  "port_tier h di =
     (let nports = min (unat (udi_nports di)) (length (udi_ports di))
      in port_lines h di [0..<nports])"

text \<open>
  \<^verbatim>\<open>dump_device\<close>. The write \<^verbatim>\<open>done[addr] = 1\<close> is outside the array when \<open>addr\<close> is not
  below its length.
\<close>

definition dump_device :: "usb_h \<Rightarrow> env \<Rightarrow> int \<Rightarrow> byte \<Rightarrow> state \<Rightarrow> abort + state" where
  "dump_device h env verbose addr st =
     (case get_deviceinfo env addr of
        Inl e \<Rightarrow>
          Inr (st\<lparr>trace := trace st @ [Ioctl USB_DEVICEINFO addr] @ warn_unless_enxio e addr\<rparr>)
      | Inr di \<Rightarrow>
          if unat addr < length (done_marks st) then
            bnd (if 1 < verbose then port_tier h di else Inr []) (\<lambda>ports.
              Inr (st\<lparr>done_marks := (done_marks st)[unat addr := True],
                      trace := trace st
                        @ [Ioctl USB_DEVICEINFO addr]
                        @ [Printf ''addr %02u: %04x:%04x %s, %s, usb_bus: %hhu''
                             [U (unat addr), U (unat (udi_vendorNo di)),
                              U (unat (udi_productNo di)), S (strvis h (udi_vendor di)),
                              S (strvis h (udi_product di)), U (unat (udi_bus di))]]
                        @ (if verbose \<noteq> 0 then verbose_info h di else [])
                        @ [Printf NL []]
                        @ (if verbose \<noteq> 0 then driver_lines di else [])
                        @ concat ports\<rparr>))
          else Inl (OutOfBounds (unat addr)))"

subsection \<open>\<^verbatim>\<open>print_device\<close>, \<^verbatim>\<open>print_config\<close> and \<^verbatim>\<open>print_full\<close>\<close>

definition print_device :: "env \<Rightarrow> byte \<Rightarrow> event list \<Rightarrow> event list" where
  "print_device env addr tr =
     (case get_ddesc env addr of
        Inl e \<Rightarrow> tr @ [Ioctl USB_DEVICE_GET_DDESC addr] @ warn_unless_enxio e addr
      | Inr ddd \<Rightarrow>
          tr @ [Ioctl USB_DEVICE_GET_DDESC addr,
                Printf (''addr %02u: max packet: %2u, num configs: %u, ''
                        @ ''iManufacturer: %hhu'' @ NL)
                  [U (unat addr), U (unat (bMaxPacketSize ddd)),
                   U (unat (bNumConfigurations ddd)), U (unat (iManufacturer ddd))]])"

text \<open>\<^verbatim>\<open>print_config\<close> returns \<open>wTotalLength\<close>, and 0 when the ioctl fails.\<close>

definition print_config ::
  "usb_h \<Rightarrow> env \<Rightarrow> byte \<Rightarrow> int \<Rightarrow> bool \<Rightarrow> event list \<Rightarrow> event list \<times> 16 word" where
  "print_config h env addr config quiet tr =
     (case get_cdesc env addr config of
        Inl e \<Rightarrow> (tr @ [Ioctl USB_DEVICE_GET_CDESC addr] @ warn_unless_enxio e addr, 0)
      | Inr cd \<Rightarrow>
          (tr @ [Ioctl USB_DEVICE_GET_CDESC addr]
              @ (if quiet then []
                 else
                   [Printf (''addr %02u, config %02u: interfaces: %u, '' @ ''max-power: %umA'')
                      [U (unat addr), U (unat (bConfigurationValue cd)),
                       U (unat (bNumInterfaces cd)),
                       U (unat (bMaxPower cd) * UC_POWER_FACTOR h)],
                    Printf (NL @ TAB @ '' attr 0x%02x:'') [U (unat (bmAttributes cd))]]
                   @ (if bmAttributes cd AND UC_BUS_POWERED h \<noteq> 0
                      then [Printf '' bus-powered'' []] else [])
                   @ (if bmAttributes cd AND UC_SELF_POWERED h \<noteq> 0
                      then [Printf '' self-powered'' []] else [])
                   @ (if bmAttributes cd AND UC_REMOTE_WAKEUP h \<noteq> 0
                      then [Printf '' remote-wakeup'' []] else [])
                   @ [Printf NL []]),
           wTotalLength cd))"

text \<open>
  \<^verbatim>\<open>print_full\<close>: the allocation of \<open>wtotlen\<close> bytes, the ioctl that fills it, and the
  walk over the \<open>wtotlen\<close> bytes it then holds. \<open>None\<close> is a call that does not return.
\<close>

definition print_full ::
  "env \<Rightarrow> byte \<Rightarrow> int \<Rightarrow> 16 word \<Rightarrow> event list \<Rightarrow> (abort + event list) option" where
  "print_full env addr config wtotlen tr =
     (if \<not> malloc_ok env (unat wtotlen) then Some (Inl (Errx ''malloc''))
      else
        (case get_fdesc env addr config (unat wtotlen) of
           Inl e \<Rightarrow>
             Some (Inr (tr @ [Malloc (unat wtotlen), Ioctl USB_DEVICE_GET_FDESC addr]
                           @ warn_unless_enxio e addr))
         | Inr content \<Rightarrow>
             (case walk (map content [0..<unat wtotlen]) 0 [] of
                None \<Rightarrow> None
              | Some (Inl a) \<Rightarrow> Some (Inl a)
              | Some (Inr outs) \<Rightarrow>
                  Some (Inr (tr @ [Malloc (unat wtotlen), Ioctl USB_DEVICE_GET_FDESC addr,
                                   Printf ''addr %02u, '' [U (unat addr)]]
                                @ concat outs)))))"

subsection \<open>The drivers\<close>

text \<open>
  The loops \<^verbatim>\<open>for (addr = 1; addr < USB_MAX_DEVICES; addr++)\<close> count in a \<^verbatim>\<open>uint8_t\<close>,
  which wraps around at 256; \<open>None\<close> is a loop that does not return.
\<close>

partial_function (option) dump_controller_loop ::
  "usb_h \<Rightarrow> env \<Rightarrow> int \<Rightarrow> byte \<Rightarrow> state \<Rightarrow> (abort + state) option" where
  "dump_controller_loop h env verbose addr st =
     (if unat addr < USB_MAX_DEVICES h then
        (case rd (done_marks st) (unat addr) of
           Inl a \<Rightarrow> Some (Inl a)
         | Inr d \<Rightarrow>
             (case (if \<not> d then dump_device h env verbose addr st else Inr st) of
                Inl a \<Rightarrow> Some (Inl a)
              | Inr st' \<Rightarrow> dump_controller_loop h env verbose (addr + 1) st'))
      else Some (Inr st))"

definition dump_controller ::
  "usb_h \<Rightarrow> env \<Rightarrow> int \<Rightarrow> string \<Rightarrow> byte \<Rightarrow> state \<Rightarrow> (abort + state) option" where
  "dump_controller h env verbose name addr st =
     (let st0 = st\<lparr>done_marks := replicate (USB_MAX_DEVICES h) False\<rparr> in
      if addr \<noteq> 0 then Some (dump_device h env verbose addr st0)
      else dump_controller_loop h env verbose 1
             (st0\<lparr>trace := trace st0 @ [Printf (''Controller %s:'' @ NL) [S name]]\<rparr>))"

partial_function (option) dump_device_desc_loop ::
  "usb_h \<Rightarrow> env \<Rightarrow> byte \<Rightarrow> event list \<Rightarrow> (abort + event list) option" where
  "dump_device_desc_loop h env addr tr =
     (if unat addr < USB_MAX_DEVICES h
      then dump_device_desc_loop h env (addr + 1) (print_device env addr tr)
      else Some (Inr tr))"

definition dump_device_desc ::
  "usb_h \<Rightarrow> env \<Rightarrow> string \<Rightarrow> byte \<Rightarrow> event list \<Rightarrow> (abort + event list) option" where
  "dump_device_desc h env name addr tr =
     (if addr \<noteq> 0 then Some (Inr (print_device env addr tr))
      else dump_device_desc_loop h env 1 (tr @ [Printf (''Controller %s:'' @ NL) [S name]]))"

partial_function (option) dump_config_loop ::
  "usb_h \<Rightarrow> env \<Rightarrow> int \<Rightarrow> byte \<Rightarrow> event list \<Rightarrow> (abort + event list) option" where
  "dump_config_loop h env config addr tr =
     (if unat addr < USB_MAX_DEVICES h
      then dump_config_loop h env config (addr + 1)
             (fst (print_config h env addr config False tr))
      else Some (Inr tr))"

definition dump_config ::
  "usb_h \<Rightarrow> env \<Rightarrow> string \<Rightarrow> byte \<Rightarrow> int \<Rightarrow> event list \<Rightarrow> (abort + event list) option" where
  "dump_config h env name addr config tr =
     (if addr \<noteq> 0 then Some (Inr (fst (print_config h env addr config False tr)))
      else dump_config_loop h env config 1 (tr @ [Printf (''Controller %s:'' @ NL) [S name]]))"

text \<open>
  One address of \<^verbatim>\<open>full_dump\<close>: the quiet \<^verbatim>\<open>print_config\<close>, then \<^verbatim>\<open>print_full\<close> with the
  length it returned.
\<close>

definition full_dump_addr ::
  "usb_h \<Rightarrow> env \<Rightarrow> byte \<Rightarrow> int \<Rightarrow> event list \<Rightarrow> (abort + event list) option" where
  "full_dump_addr h env addr config tr =
     (case print_config h env addr config True tr of
        (tr', wtotlen) \<Rightarrow> print_full env addr config wtotlen tr')"

partial_function (option) full_dump_loop ::
  "usb_h \<Rightarrow> env \<Rightarrow> int \<Rightarrow> byte \<Rightarrow> event list \<Rightarrow> (abort + event list) option" where
  "full_dump_loop h env config addr tr =
     (if unat addr < USB_MAX_DEVICES h then
        (case full_dump_addr h env addr config tr of
           None \<Rightarrow> None
         | Some (Inl a) \<Rightarrow> Some (Inl a)
         | Some (Inr tr') \<Rightarrow> full_dump_loop h env config (addr + 1) tr')
      else Some (Inr tr))"

definition full_dump ::
  "usb_h \<Rightarrow> env \<Rightarrow> string \<Rightarrow> byte \<Rightarrow> int \<Rightarrow> event list \<Rightarrow> (abort + event list) option" where
  "full_dump h env name addr config tr =
     (if addr \<noteq> 0 then full_dump_addr h env addr config tr
      else full_dump_loop h env config 1 (tr @ [Printf (''Controller %s:'' @ NL) [S name]]))"

declare dump_controller_loop.simps [code]
declare dump_device_desc_loop.simps [code]
declare dump_config_loop.simps [code]
declare full_dump_loop.simps [code]

subsection \<open>Reading a trace\<close>

text \<open>
  The addresses of the ioctls of a trace, the addresses its warnings name, and the
  addresses of the device reports in it (a report starts with the first \<^verbatim>\<open>printf\<close> of
  \<^verbatim>\<open>dump_device\<close>), each in the order of the trace.
\<close>

definition queried :: "event list \<Rightarrow> byte list" where
  "queried tr = concat (map (\<lambda>e. case e of Ioctl r a \<Rightarrow> [a] | _ \<Rightarrow> []) tr)"

definition warned :: "event list \<Rightarrow> nat list" where
  "warned tr = concat (map (\<lambda>e. case e of Warn f (U a # args) \<Rightarrow> [a] | _ \<Rightarrow> []) tr)"

definition reported :: "event list \<Rightarrow> nat list" where
  "reported tr =
     concat (map (\<lambda>e. case e of
                Printf f (U a # args) \<Rightarrow>
                  if f = ''addr %02u: %04x:%04x %s, %s, usb_bus: %hhu'' then [a] else []
              | _ \<Rightarrow> []) tr)"

text \<open>A device is present at an address, or the query for the address fails otherwise
  than with \<^verbatim>\<open>ENXIO\<close>.\<close>

definition present :: "env \<Rightarrow> byte \<Rightarrow> bool" where
  "present env addr = (case get_deviceinfo env addr of Inl e \<Rightarrow> False | Inr di \<Rightarrow> True)"

definition failing :: "env \<Rightarrow> byte \<Rightarrow> bool" where
  "failing env addr =
     (case get_deviceinfo env addr of Inl e \<Rightarrow> e \<noteq> ENXIO | Inr di \<Rightarrow> False)"

text \<open>Output that is neither a request, a warning nor the first line of a device report.\<close>

definition plain :: "event list \<Rightarrow> bool" where
  "plain evs = (\<forall>e \<in> set evs. \<exists>f args. e = Printf f args \<and>
      f \<noteq> ''addr %02u: %04x:%04x %s, %s, usb_bus: %hhu'')"

text \<open>
  What a failed query leaves in the trace, in the words of the error taxonomy: the
  request, and a warning naming the address unless the failure is "no such device".
\<close>

definition failed_query :: "request \<Rightarrow> byte \<Rightarrow> errno \<Rightarrow> event list" where
  "failed_query req addr e =
     (if e = ENXIO then [Ioctl req addr]
      else [Ioctl req addr, Warn ''addr %u'' [U (unat addr)]])"

subsection \<open>A sample platform and a sample controller\<close>

text \<open>
  The values of the constants in OpenBSD's \<^verbatim>\<open><dev/usb/usb.h>\<close>; the stand-in for
  \<^verbatim>\<open>strvis\<close> leaves a string unchanged.
\<close>

definition sample_usb_h :: usb_h where
  "sample_usb_h =
     \<lparr>USB_MAX_DEVICES = 128,
      USB_SPEED_LOW = 1, USB_SPEED_FULL = 2, USB_SPEED_HIGH = 3, USB_SPEED_SUPER = 4,
      UPS_CURRENT_CONNECT_STATUS = 0x0001, UPS_PORT_ENABLED = 0x0002, UPS_SUSPEND = 0x0004,
      UPS_OVERCURRENT_INDICATOR = 0x0008, UPS_PORT_L1 = 0x0020, UPS_PORT_POWER = 0x0100,
      UPS_PORT_POWER_SS = 0x0200,
      UPS_PORT_LS_GET = (\<lambda>x. drop_bit 5 x AND 0xf),
      UPS_PORT_LS_U0 = 0x00, UPS_PORT_LS_U1 = 0x01, UPS_PORT_LS_U2 = 0x02,
      UPS_PORT_LS_U3 = 0x03, UPS_PORT_LS_SS_DISABLED = 0x04, UPS_PORT_LS_RX_DETECT = 0x05,
      UPS_PORT_LS_SS_INACTIVE = 0x06, UPS_PORT_LS_POLLING = 0x07,
      UPS_PORT_LS_RECOVERY = 0x08, UPS_PORT_LS_HOT_RESET = 0x09,
      UPS_PORT_LS_COMP_MOD = 0x0a, UPS_PORT_LS_LOOPBACK = 0x0b,
      UC_POWER_FACTOR = 2, UC_BUS_POWERED = 0x80, UC_SELF_POWERED = 0x40,
      UC_REMOTE_WAKEUP = 0x20,
      strvis = (\<lambda>s. s)\<rparr>"

definition sample_device :: usb_device_info where
  "sample_device =
     \<lparr>udi_bus = 0, udi_vendorNo = 0x046d, udi_productNo = 0xc077, udi_releaseNo = 0x7200,
      udi_vendor = ''Logitech'', udi_product = ''USB Optical Mouse'',
      udi_release = ''72.00'', udi_serial = [],
      udi_speed = 1, udi_power = 100, udi_config = 1,
      udi_class = 0, udi_subclass = 0, udi_protocol = 0,
      udi_devnames = [''uhidev0'', [], [], []],
      udi_nports = 0, udi_ports = replicate 16 0\<rparr>"

text \<open>
  A controller with the same device at addresses 3 and 7, an address 9 where every
  query fails with error 5, and no device elsewhere. The configuration at address 3 has a
  total length of 25 bytes, the one at address 7 claims 65535 bytes; allocations of 32768
  bytes or more fail.
\<close>

definition sample_env :: env where
  "sample_env =
     \<lparr>get_deviceinfo = (\<lambda>addr.
        if addr = 3 \<or> addr = 7 then Inr sample_device
        else if addr = 9 then Inl (EOTHER 5) else Inl ENXIO),
      get_ddesc = (\<lambda>addr.
        if addr = 3 \<or> addr = 7
        then Inr \<lparr>bMaxPacketSize = 8, bNumConfigurations = 1, iManufacturer = 1\<rparr>
        else if addr = 9 then Inl (EOTHER 5) else Inl ENXIO),
      get_cdesc = (\<lambda>addr config.
        if addr = 3 \<or> addr = 7
        then Inr \<lparr>bConfigurationValue = 1, bNumInterfaces = 1, bmAttributes = 0xa0,
                  bMaxPower = 50, wTotalLength = (if addr = 3 then 25 else 0xffff)\<rparr>
        else if addr = 9 then Inl (EOTHER 5) else Inl ENXIO),
      get_fdesc = (\<lambda>addr config size.
        if addr = 3 \<or> addr = 7
        then Inr (\<lambda>i. if i < length sample_chain then sample_chain ! i else 0)
        else if addr = 9 then Inl (EOTHER 5) else Inl ENXIO),
      malloc_ok = (\<lambda>size. size < 32768)\<rparr>"

definition sample_state :: state where
  "sample_state = \<lparr>done_marks = [], trace = []\<rparr>"

text \<open>
  A controller with one device, at address 1, whose configuration is the chain given;
  every allocation succeeds.
\<close>

definition chain_env :: "byte list \<Rightarrow> env" where
  "chain_env chain =
     \<lparr>get_deviceinfo = (\<lambda>addr. if addr = 1 then Inr sample_device else Inl ENXIO),
      get_ddesc = (\<lambda>addr.
        if addr = 1
        then Inr \<lparr>bMaxPacketSize = 8, bNumConfigurations = 1, iManufacturer = 1\<rparr>
        else Inl ENXIO),
      get_cdesc = (\<lambda>addr config.
        if addr = 1
        then Inr \<lparr>bConfigurationValue = 1, bNumInterfaces = 1, bmAttributes = 0xa0,
                  bMaxPower = 50, wTotalLength = of_nat (length chain)\<rparr>
        else Inl ENXIO),
      get_fdesc = (\<lambda>addr config size.
        if addr = 1 then Inr (\<lambda>i. if i < length chain then chain ! i else 0)
        else Inl ENXIO),
      malloc_ok = (\<lambda>size. True)\<rparr>"

section \<open>Properties of the walker and the renderers\<close>

subsection \<open>A length byte of 0\<close>

lemma walk_returns_not_stuck:
  assumes ret: "walk b c a = Some y"
  shows "\<not> (c < length b \<and> b ! c = 0 \<and> (\<exists>out. dispatch b c = Inr out))"
proof (rule walk.raw_induct[OF _ ret])
  fix walk' :: "byte list \<Rightarrow> nat \<Rightarrow> event list list \<Rightarrow> (abort + event list list) option"
    and b c a y
  assume IH: "\<And>b c a y. walk' b c a = Some y \<Longrightarrow>
      \<not> (c < length b \<and> b ! c = 0 \<and> (\<exists>out. dispatch b c = Inr out))"
  assume step: "(if c < length b then
        (case dispatch b c of
           Inl a \<Rightarrow> Some (Inl a)
         | Inr out \<Rightarrow>
             (case rd b c of
                Inl a \<Rightarrow> Some (Inl a)
              | Inr l \<Rightarrow> walk' b (c + unat l) (a @ [out])))
      else Some (Inr a)) = Some y"
  show "\<not> (c < length b \<and> b ! c = 0 \<and> (\<exists>out. dispatch b c = Inr out))"
  proof
    assume h: "c < length b \<and> b ! c = 0 \<and> (\<exists>out. dispatch b c = Inr out)"
    then obtain out where o: "dispatch b c = Inr out" by blast
    from h step o have "walk' b c (a @ [out]) = Some y"
      by (simp add: rd_def)
    from IH[OF this] h show False by blast
  qed
qed

lemma walk_zero_length:
  "cur < length buf \<Longrightarrow> buf ! cur = 0 \<Longrightarrow> dispatch buf cur = Inr out \<Longrightarrow>
     walk buf cur acc = None"
  using walk_returns_not_stuck[of buf cur acc] by (cases "walk buf cur acc") auto

lemma dispatch_zero_string:
  "dispatch [0, 3] 0 = Inr [Printf (TAB @ '' unknown: %02u'') [U 3], Printf NL []]"
  by (simp add: dispatch_def rd_def bnd_def C_DESC_def I_DESC_def E_DESC_def
      print_unknown_def)

lemma walk_zero_string: "walk [0, 3] 0 [] = None"
  by (rule walk_zero_length[OF _ _ dispatch_zero_string]) simp_all

text \<open>
  C1. The claim: at a length byte of 0 the walker ends the walk, decodes nothing further
  and does not loop forever. The loop has no test of the length byte: on the buffer
  \<open>[0, 3]\<close> (length byte 0, tag 3) the cursor stays at offset 0, the same sub-descriptor is
  rendered again and again, and the walk does not return.
\<close>

theorem walk_zero_length_never_returns: "walk [0, 3] 0 [] = None"
  by (rule walk_zero_string)

subsection \<open>Reads and the end of the buffer\<close>

lemma dump_bytes_ok:
  "\<forall>i \<in> set is. cur + i < length buf \<Longrightarrow> \<exists>out. dump_bytes buf cur is = Inr out"
  by (induction "is") (auto simp: rd_def bnd_def)

lemma dispatch_ok:
  assumes "cur + 1 < length buf"
    and "cur + extent (buf ! (cur + 1)) (unat (buf ! cur)) \<le> length buf"
  shows "\<exists>out. dispatch buf cur = Inr out"
proof -
  consider (c) "buf ! (cur + 1) = C_DESC" | (i) "buf ! (cur + 1) = I_DESC"
    | (e) "buf ! (cur + 1) = E_DESC"
    | (u) "buf ! (cur + 1) \<noteq> C_DESC" "buf ! (cur + 1) \<noteq> I_DESC"
          "buf ! (cur + 1) \<noteq> E_DESC"
    by blast
  then show ?thesis
  proof cases
    case c
    with assms show ?thesis
      by (simp add: dispatch_def extent_def rd_def bnd_def print_fconfig_def)
  next
    case i
    with assms show ?thesis
      by (simp add: dispatch_def extent_def rd_def bnd_def print_iface_def
          C_DESC_def I_DESC_def)
  next
    case e
    with assms show ?thesis
      by (simp add: dispatch_def extent_def rd_def bnd_def print_endpt_def
          C_DESC_def I_DESC_def E_DESC_def)
  next
    case u
    with assms have "\<forall>i \<in> set [0..<unat (buf ! cur)]. cur + i < length buf"
      by (auto simp: extent_def)
    from dump_bytes_ok[OF this]
    obtain bytes where "dump_bytes buf cur [0..<unat (buf ! cur)] = Inr bytes" ..
    with u assms show ?thesis
      by (simp add: dispatch_def rd_def bnd_def print_unknown_def)
  qed
qed

lemma walk_chain_ok:
  "chain_ok buf cur \<Longrightarrow>
     \<exists>outs. walk buf cur acc = Some (Inr (acc @ outs)) \<and> length outs \<le> length buf - cur"
proof (induction buf cur arbitrary: acc rule: chain_ok.induct)
  case (1 buf cur)
  show ?case
  proof (cases "cur < length buf")
    case False
    then show ?thesis by (subst walk.simps) simp
  next
    case True
    from "1.prems" True have c1: "cur + 1 < length buf" and nz: "buf ! cur \<noteq> 0"
      and fit: "cur + extent (buf ! (cur + 1)) (unat (buf ! cur)) \<le> length buf"
      and rest: "chain_ok buf (cur + unat (buf ! cur))"
      by (subst (asm) chain_ok.simps; simp split: if_splits)+
    from dispatch_ok[OF c1 fit] obtain out where out: "dispatch buf cur = Inr out" ..
    from "1.IH"[OF True c1 nz fit rest, of "acc @ [out]"]
    obtain outs where
      w: "walk buf (cur + unat (buf ! cur)) (acc @ [out]) = Some (Inr ((acc @ [out]) @ outs))"
      and len: "length outs \<le> length buf - (cur + unat (buf ! cur))" by blast
    from nz have "0 < unat (buf ! cur)" by (simp add: unat_gt_0)
    with len True have "length (out # outs) \<le> length buf - cur" by simp
    moreover from True out w have "walk buf cur acc = Some (Inr (acc @ (out # outs)))"
      by (subst walk.simps) (simp add: rd_def)
    ultimately show ?thesis by blast
  qed
qed

text \<open>
  A chain that is well formed is walked to its end, with one visit per sub-descriptor
  and every read inside the buffer; the sample chain is one.
\<close>

lemma walk_well_formed:
  "chain_ok buf 0 \<Longrightarrow>
     \<exists>outs. walk buf 0 [] = Some (Inr outs) \<and> length outs \<le> length buf"
  using walk_chain_ok[of buf 0 "[]"] by simp

lemma sample_chain_ok: "chain_ok sample_chain 0"
  unfolding sample_chain_def by code_simp

lemma walk_overlong_unknown: "walk [9, 33] 0 [] = Some (Inl (OutOfBounds 2))"
  by (subst walk.simps)
    (simp add: dispatch_def rd_def bnd_def C_DESC_def I_DESC_def E_DESC_def S_DESC_def
      print_unknown_def upt_rec)

text \<open>
  C2. The claim: for every buffer of length \<open>N\<close> the walk visits at most \<open>N\<close>
  sub-descriptors and reads no byte at offset \<open>N\<close> or beyond, and a last sub-descriptor
  whose declared length extends past the end stops the walk with no read past the
  boundary. The loop bounds the cursor by \<open>cur < data + wtotlen\<close>, but neither the
  \<^verbatim>\<open>switch\<close> nor the renderers compare what they read with that bound: on the buffer
  \<open>[9, 33]\<close> of length 2, whose only sub-descriptor has an unknown tag and declares 9
  bytes, the hex dump of \<^verbatim>\<open>print_unknown\<close> reads offset 2, outside the allocation.
\<close>

theorem walk_reads_past_end: "walk [9, 33] 0 [] = Some (Inl (OutOfBounds 2))"
  by (rule walk_overlong_unknown)

subsection \<open>Endpoint sub-descriptors\<close>

lemma sync_field_not_1: "(attr :: byte) AND 0xC \<noteq> 1"
proof
  assume "attr AND 0xC = 1"
  then have "bit (attr AND 0xC) 0 = bit (1 :: byte) 0" by simp
  then show False by (simp add: bit_simps)
qed

lemma sync_field_not_2: "(attr :: byte) AND 0xC \<noteq> 2"
proof
  assume "attr AND 0xC = 2"
  then have "bit (attr AND 0xC) 1 = bit (2 :: byte) 1" by simp
  then show False by (simp add: bit_simps)
qed

lemma sync_field_not_3: "(attr :: byte) AND 0xC \<noteq> 3"
proof
  assume "attr AND 0xC = 3"
  then have "bit (attr AND 0xC) 0 = bit (3 :: byte) 0" by simp
  then show False by (simp add: bit_simps)
qed

text \<open>
  C4. The claim: for an isochronous endpoint each of the four values of the
  synchronization-type field is rendered as its own label. The field is bits 3..2 of the
  attributes byte; the code masks it with \<open>0xC\<close> and compares the result, unshifted, with
  0, 1, 2 and 3. The masked value is never 1, 2 or 3, so for every attribute byte the
  only label that can follow \<open>sync_type: \<close> is \<open>none\<close>: for the attribute bytes \<open>0x05\<close>,
  \<open>0x09\<close> and \<open>0x0D\<close> (isochronous with field value 1, 2 and 3) no label is rendered.
\<close>

theorem sync_type_labels_missing:
  "sync_type attr = (if attr AND 0xC = 0 then [Printf ''none, '' []] else []) \<and>
   transfer_type 0x05 = [Printf ''isochronous, '' [], Printf ''sync_type: '' []] \<and>
   transfer_type 0x09 = [Printf ''isochronous, '' [], Printf ''sync_type: '' []] \<and>
   transfer_type 0x0D = [Printf ''isochronous, '' [], Printf ''sync_type: '' []] \<and>
   transfer_type 0x01 =
     [Printf ''isochronous, '' [], Printf ''sync_type: '' [], Printf ''none, '' []]"
  by (simp add: transfer_type_def sync_type_def Let_def
      sync_field_not_1 sync_field_not_2 sync_field_not_3)

text \<open>
  C5. The claim: the direction is decided by the direction bit of the endpoint-address
  byte and the address shown is the endpoint number in its low bits, so that two bytes
  that differ only in the direction bit show different directions and the same number.
  The code tests \<open>byte & 0x7\<close> for the direction and shows \<open>byte & 0x3\<close>: flipping bit 7,
  the direction bit of an endpoint address, never changes what is rendered. The bytes
  \<open>0x81\<close> and \<open>0x01\<close> (endpoint 1, in and out) are rendered alike, both as \<open>in\<close>, and
  so are \<open>0x80\<close> and \<open>0x00\<close>, both as \<open>out\<close>; endpoint 4 out (\<open>0x04\<close>) is shown as
  address 0, direction \<open>in\<close>.
\<close>

theorem endpt_direction_ignores_bit7:
  "endpt_dir (a XOR 0x80) = endpt_dir a \<and> endpt_addr (a XOR 0x80) = endpt_addr a \<and>
   print_endpt [7, 5, 0x81, 2, 64, 0, 0] 0 = print_endpt [7, 5, 0x01, 2, 64, 0, 0] 0 \<and>
   endpt_dir 0x81 = ''in'' \<and> endpt_dir 0x01 = ''in'' \<and>
   endpt_dir 0x80 = ''out'' \<and> endpt_dir 0x00 = ''out'' \<and>
   endpt_addr 0x04 = 0 \<and> endpt_dir 0x04 = ''in''"
  by (simp add: print_endpt_def rd_def bnd_def endpt_dir_def endpt_addr_def
      bit.conj_xor_distrib2)

section \<open>Properties of the decoders and the drivers\<close>

subsection \<open>The port tier\<close>

lemma port_lines_ok:
  "\<forall>p \<in> set ps. p < length (udi_ports di) \<Longrightarrow>
     \<exists>lines. port_lines h di ps = Inr lines \<and> length lines = length ps"
  by (induction ps) (auto simp: rd_def bnd_def)

lemma port_tier_ok:
  "\<exists>lines. port_tier h di = Inr lines \<and>
     length lines = min (unat (udi_nports di)) (length (udi_ports di))"
  using port_lines_ok[of "[0..<min (unat (udi_nports di)) (length (udi_ports di))]" di h]
  by (simp add: port_tier_def Let_def)

text \<open>
  C10. The port tier renders one line per port index below the minimum of the reported
  number of ports and the capacity of the port array, and every index it reads is below
  the capacity: the tier returns its lines, whatever number of ports the device reports.
\<close>

theorem port_tier_bounded:
  "\<exists>lines. port_tier h di = Inr lines \<and>
     length lines = min (unat (udi_nports di)) (length (udi_ports di))"
  by (rule port_tier_ok)





subsection \<open>The full-descriptor decode after a failed configuration query\<close>

lemma walk_empty: "walk [] 0 [] = Some (Inr [])"
  by (subst walk.simps) simp

text \<open>
  C3, as stated: when the quiet configuration decode returns 0, no buffer is allocated
  and no full-descriptor fetch is issued. \<^verbatim>\<open>full_dump\<close> calls \<^verbatim>\<open>print_full\<close> with whatever
  \<^verbatim>\<open>print_config\<close> returned: at address 5 of the sample controller, where no device is,
  the configuration query fails, and an allocation of 0 bytes and the fetch follow.
\<close>

theorem full_dump_fetches_after_failed_config:
  "snd (print_config sample_usb_h sample_env 5 0 True []) = 0 \<and>
   full_dump sample_usb_h sample_env ''/dev/usb0'' 5 0 [] =
     Some (Inr [Ioctl USB_DEVICE_GET_CDESC 5, Malloc 0, Ioctl USB_DEVICE_GET_FDESC 5])"
  by (simp add: full_dump_def full_dump_addr_def print_config_def print_full_def
      sample_env_def warn_unless_enxio_def)

text \<open>
  C3, amended: when the quiet configuration decode returns 0, the full-descriptor decode
  still requests a buffer, of 0 bytes, and, when the request succeeds, issues the
  full-descriptor fetch with size 0; a failed fetch is handled as any failed query, and
  after a successful one the walker visits no sub-descriptor, so only the address prefix
  is printed.
\<close>

theorem full_dump_zero_length:
  assumes "print_config h env addr config True tr = (tr', 0)" and "malloc_ok env 0"
  shows "full_dump_addr h env addr config tr =
           Some (Inr (tr' @ [Malloc 0, Ioctl USB_DEVICE_GET_FDESC addr]
                      @ (case get_fdesc env addr config 0 of
                           Inl e \<Rightarrow> warn_unless_enxio e addr
                         | Inr content \<Rightarrow> [Printf ''addr %02u, '' [U (unat addr)]])))"
  using assms by (simp add: full_dump_addr_def print_full_def walk_empty split: sum.splits)

theorem full_dump_zero_length_witness:
  "print_config sample_usb_h sample_env 9 0 True [] =
     ([Ioctl USB_DEVICE_GET_CDESC 9, Warn ''addr %u'' [U 9]], 0) \<and>
   malloc_ok sample_env 0 \<and>
   full_dump_addr sample_usb_h sample_env 9 0 [] =
     Some (Inr [Ioctl USB_DEVICE_GET_CDESC 9, Warn ''addr %u'' [U 9],
                Malloc 0, Ioctl USB_DEVICE_GET_FDESC 9, Warn ''addr %u'' [U 9]])"
proof -
  have c: "print_config sample_usb_h sample_env 9 0 True [] =
      ([Ioctl USB_DEVICE_GET_CDESC 9, Warn ''addr %u'' [U 9]], 0)"
    by (simp add: print_config_def sample_env_def warn_unless_enxio_def)
  have m: "malloc_ok sample_env 0" by (simp add: sample_env_def)
  have f: "get_fdesc sample_env 9 0 0 = Inl (EOTHER 5)" by (simp add: sample_env_def)
  from full_dump_zero_length[OF c m] c m f show ?thesis
    by (simp add: warn_unless_enxio_def)
qed

subsection \<open>The live-info decode and its driver\<close>

lemma plain_Nil [simp]: "plain []" by (simp add: plain_def)
lemma plain_append [simp]: "plain (a @ b) = (plain a \<and> plain b)" by (auto simp: plain_def)
lemma plain_Cons: "plain (e # es) = (plain [e] \<and> plain es)" by (auto simp: plain_def)
lemma plain_concat: "plain (concat xss) = (\<forall>xs \<in> set xss. plain xs)" by (auto simp: plain_def)

lemma queried_append [simp]: "queried (a @ b) = queried a @ queried b" by (simp add: queried_def)
lemma warned_append [simp]: "warned (a @ b) = warned a @ warned b" by (simp add: warned_def)
lemma reported_append [simp]: "reported (a @ b) = reported a @ reported b" by (simp add: reported_def)

lemma plain_projections:
  "plain evs \<Longrightarrow> queried evs = [] \<and> warned evs = [] \<and> reported evs = []"
  by (induction evs) (auto simp: plain_def queried_def warned_def reported_def split: list.splits arg.splits)

lemma plain_Printf [simp]:
  "plain (Printf f args # es) =
     (f \<noteq> ''addr %02u: %04x:%04x %s, %s, usb_bus: %hhu'' \<and> plain es)"
  by (auto simp: plain_def)

lemma plain_speed_label: "plain (speed_label h s)"
  by (simp add: speed_label_def)

lemma plain_verbose_info: "plain (verbose_info h di)"
  by (simp add: verbose_info_def plain_speed_label NL_def TAB_def)

lemma plain_driver_lines: "plain (driver_lines di)"
  by (auto simp: driver_lines_def plain_concat TAB_def)

lemma plain_link_state_label: "plain (link_state_label h status)"
  by (simp add: link_state_label_def Let_def)

lemma plain_port_labels: "plain (port_labels h speed status)"
  by (simp add: port_labels_def plain_link_state_label)

lemma plain_port_line: "plain (port_line h speed port w)"
  by (simp add: port_line_def Let_def plain_port_labels NL_def TAB_def)

lemma plain_port_lines: "port_lines h di ps = Inr lines \<Longrightarrow> \<forall>l \<in> set lines. plain l"
  by (induction ps arbitrary: lines) (auto simp: bnd_def plain_port_line split: sum.splits)

lemma plain_port_tier: "port_tier h di = Inr lines \<Longrightarrow> plain (concat lines)"
  by (simp add: port_tier_def Let_def plain_concat plain_port_lines)

lemma dump_device_failed:
  "get_deviceinfo env addr = Inl e \<Longrightarrow>
     dump_device h env v addr st =
       Inr (st\<lparr>trace := trace st @ [Ioctl USB_DEVICEINFO addr] @ warn_unless_enxio e addr\<rparr>)"
  by (simp add: dump_device_def)

lemma dump_device_step:
  assumes "unat addr < length (done_marks st)"
  shows "\<exists>st' new. dump_device h env v addr st = Inr st' \<and> trace st' = trace st @ new \<and>
           length (done_marks st') = length (done_marks st) \<and>
           (\<forall>i. i \<noteq> unat addr \<longrightarrow> done_marks st' ! i = done_marks st ! i) \<and>
           queried new = [addr] \<and>
           reported new = (if present env addr then [unat addr] else []) \<and>
           warned new = (if failing env addr then [unat addr] else [])"
proof (cases "get_deviceinfo env addr")
  case (Inl e)
  then show ?thesis
    by (simp add: dump_device_failed present_def failing_def warn_unless_enxio_def
        queried_def reported_def warned_def)
next
  case (Inr di)
  obtain ports where ports: "(if 1 < v then port_tier h di else Inr []) = Inr ports"
    using port_tier_ok[of h di] by (cases "1 < v") auto
  then have pl: "plain (concat ports)"
    by (cases "1 < v") (simp_all add: plain_port_tier)
  define rest where "rest = (if v \<noteq> 0 then verbose_info h di else [])
                        @ [Printf NL []]
                        @ (if v \<noteq> 0 then driver_lines di else [])
                        @ concat ports"
  have "plain rest"
    by (simp add: rest_def pl plain_verbose_info plain_driver_lines NL_def)
  then have proj: "queried rest = []" "warned rest = []" "reported rest = []"
    using plain_projections by blast+
  define hdr where "hdr = [Ioctl USB_DEVICEINFO addr,
       Printf ''addr %02u: %04x:%04x %s, %s, usb_bus: %hhu''
         [U (unat addr), U (unat (udi_vendorNo di)),
          U (unat (udi_productNo di)), S (strvis h (udi_vendor di)),
          S (strvis h (udi_product di)), U (unat (udi_bus di))]]"
  have h1: "queried hdr = [addr]" "warned hdr = []" "reported hdr = [unat addr]"
    by (simp_all add: hdr_def queried_def warned_def reported_def)
  have "dump_device h env v addr st =
          Inr (st\<lparr>done_marks := (done_marks st)[unat addr := True],
                  trace := trace st @ hdr @ rest\<rparr>)"
    using assms Inr ports by (simp add: dump_device_def bnd_def hdr_def rest_def)
  with proj h1 Inr show ?thesis
    by (simp add: present_def failing_def)
qed

lemma unat_succ_byte: "unat (addr :: byte) < 255 \<Longrightarrow> unat (addr + 1) = unat addr + 1"
  by (simp add: unat_word_ariths)

lemma dump_controller_loop_trace:
  assumes max: "USB_MAX_DEVICES h \<le> 255"
  shows "length (done_marks st) = USB_MAX_DEVICES h \<Longrightarrow>
         (\<forall>i. unat addr \<le> i \<and> i < USB_MAX_DEVICES h \<longrightarrow> \<not> done_marks st ! i) \<Longrightarrow>
         \<exists>st' new. dump_controller_loop h env v addr st = Some (Inr st') \<and>
           trace st' = trace st @ new \<and>
           queried new = map of_nat [unat addr..<USB_MAX_DEVICES h] \<and>
           reported new = filter (\<lambda>a. present env (of_nat a)) [unat addr..<USB_MAX_DEVICES h] \<and>
           warned new = filter (\<lambda>a. failing env (of_nat a)) [unat addr..<USB_MAX_DEVICES h]"
proof (induction "USB_MAX_DEVICES h - unat addr" arbitrary: addr st)
  case 0
  then have "\<not> unat addr < USB_MAX_DEVICES h" by simp
  then show ?case
    by (subst dump_controller_loop.simps)
      (use 0 in \<open>simp add: queried_def reported_def warned_def\<close>)
next
  case (Suc n)
  then have lt: "unat addr < USB_MAX_DEVICES h" by simp
  with Suc.prems have inr: "unat addr < length (done_marks st)"
    and nd: "\<not> done_marks st ! unat addr" by simp_all
  from dump_device_step[OF inr, of h env v]
  obtain st1 new1 where d: "dump_device h env v addr st = Inr st1"
    and t1: "trace st1 = trace st @ new1"
    and l1: "length (done_marks st1) = length (done_marks st)"
    and o1: "\<forall>i. i \<noteq> unat addr \<longrightarrow> done_marks st1 ! i = done_marks st ! i"
    and q1: "queried new1 = [addr]"
    and r1: "reported new1 = (if present env addr then [unat addr] else [])"
    and w1: "warned new1 = (if failing env addr then [unat addr] else [])"
    by blast
  from lt max have u: "unat (addr + 1) = unat addr + 1" by (simp add: unat_succ_byte)
  have n: "n = USB_MAX_DEVICES h - unat (addr + 1)" using Suc.hyps(2) u by simp
  have len: "length (done_marks st1) = USB_MAX_DEVICES h" using l1 Suc.prems by simp
  have clr: "\<forall>i. unat (addr + 1) \<le> i \<and> i < USB_MAX_DEVICES h \<longrightarrow> \<not> done_marks st1 ! i"
    using o1 Suc.prems(2) u by simp
  from Suc.hyps(1)[OF n len clr]
  obtain st' new2 where loop: "dump_controller_loop h env v (addr + 1) st1 = Some (Inr st')"
    and t2: "trace st' = trace st1 @ new2"
    and q2: "queried new2 = map of_nat [unat (addr + 1)..<USB_MAX_DEVICES h]"
    and r2: "reported new2 = filter (\<lambda>a. present env (of_nat a)) [unat (addr + 1)..<USB_MAX_DEVICES h]"
    and w2: "warned new2 = filter (\<lambda>a. failing env (of_nat a)) [unat (addr + 1)..<USB_MAX_DEVICES h]"
    by blast
  have run: "dump_controller_loop h env v addr st = Some (Inr st')"
    by (subst dump_controller_loop.simps) (simp add: lt rd_def inr nd d loop)
  have upt: "[unat addr..<USB_MAX_DEVICES h] = unat addr # [unat (addr + 1)..<USB_MAX_DEVICES h]"
    using lt u by (simp add: upt_conv_Cons)
  have "trace st' = trace st @ (new1 @ new2)" using t1 t2 by simp
  moreover have "queried (new1 @ new2) = map of_nat [unat addr..<USB_MAX_DEVICES h]"
    by (simp add: q1 q2 upt)
  moreover have "reported (new1 @ new2) =
      filter (\<lambda>a. present env (of_nat a)) [unat addr..<USB_MAX_DEVICES h]"
    by (simp add: r1 r2 upt)
  moreover have "warned (new1 @ new2) =
      filter (\<lambda>a. failing env (of_nat a)) [unat addr..<USB_MAX_DEVICES h]"
    by (simp add: w1 w2 upt)
  ultimately show ?case using run by blast
qed


text \<open>
  C7. With target address 0, \<^verbatim>\<open>dump_controller\<close> queries the addresses 1, ...,
  \<^verbatim>\<open>USB_MAX_DEVICES\<close> - 1 once each, in ascending order; the reports are those of the
  addresses where a device is present, in the same order, and the warnings those of the
  addresses whose query fails otherwise than with "no such device", so that an absent
  address gets no warning. With a target address other than 0 (below \<^verbatim>\<open>USB_MAX_DEVICES\<close>,
  as the option parser ensures) it queries that address once. The loop counts in a
  \<^verbatim>\<open>uint8_t\<close>: it ends when \<^verbatim>\<open>USB_MAX_DEVICES\<close>, a constant of the header, is at most 255.
\<close>

theorem dump_controller_enumerates:
  assumes max: "USB_MAX_DEVICES h \<le> 255"
  shows "(\<exists>st' new. dump_controller h env v name 0 st = Some (Inr st') \<and>
            trace st' = trace st @ [Printf (''Controller %s:'' @ NL) [S name]] @ new \<and>
            queried new = map of_nat [1..<USB_MAX_DEVICES h] \<and>
            reported new = filter (\<lambda>a. present env (of_nat a)) [1..<USB_MAX_DEVICES h] \<and>
            warned new = filter (\<lambda>a. failing env (of_nat a)) [1..<USB_MAX_DEVICES h]) \<and>
         (addr \<noteq> 0 \<and> unat addr < USB_MAX_DEVICES h \<longrightarrow>
            (\<exists>st' new. dump_controller h env v name addr st = Some (Inr st') \<and>
               trace st' = trace st @ new \<and> queried new = [addr]))"
proof
  define st0 where "st0 = st\<lparr>done_marks := replicate (USB_MAX_DEVICES h) False,
      trace := trace st @ [Printf (''Controller %s:'' @ NL) [S name]]\<rparr>"
  have len: "length (done_marks st0) = USB_MAX_DEVICES h" by (simp add: st0_def)
  have clr: "\<forall>i. unat (1 :: byte) \<le> i \<and> i < USB_MAX_DEVICES h \<longrightarrow> \<not> done_marks st0 ! i"
    by (simp add: st0_def)
  from dump_controller_loop_trace[OF max len clr, of env v]
  obtain st' new where "dump_controller_loop h env v 1 st0 = Some (Inr st')"
    and "trace st' = trace st0 @ new"
    and "queried new = map of_nat [unat (1 :: byte)..<USB_MAX_DEVICES h]"
    and "reported new = filter (\<lambda>a. present env (of_nat a)) [unat (1 :: byte)..<USB_MAX_DEVICES h]"
    and "warned new = filter (\<lambda>a. failing env (of_nat a)) [unat (1 :: byte)..<USB_MAX_DEVICES h]"
    by blast
  then show "\<exists>st' new. dump_controller h env v name 0 st = Some (Inr st') \<and>
            trace st' = trace st @ [Printf (''Controller %s:'' @ NL) [S name]] @ new \<and>
            queried new = map of_nat [1..<USB_MAX_DEVICES h] \<and>
            reported new = filter (\<lambda>a. present env (of_nat a)) [1..<USB_MAX_DEVICES h] \<and>
            warned new = filter (\<lambda>a. failing env (of_nat a)) [1..<USB_MAX_DEVICES h]"
    by (simp add: dump_controller_def Let_def st0_def)
next
  show "addr \<noteq> 0 \<and> unat addr < USB_MAX_DEVICES h \<longrightarrow>
            (\<exists>st' new. dump_controller h env v name addr st = Some (Inr st') \<and>
               trace st' = trace st @ new \<and> queried new = [addr])"
  proof
    assume a: "addr \<noteq> 0 \<and> unat addr < USB_MAX_DEVICES h"
    define st0 where "st0 = st\<lparr>done_marks := replicate (USB_MAX_DEVICES h) False\<rparr>"
    from a have "unat addr < length (done_marks st0)" by (simp add: st0_def)
    from dump_device_step[OF this, of h env v]
    obtain st' new where "dump_device h env v addr st0 = Inr st'"
      and "trace st' = trace st0 @ new" and "queried new = [addr]" by blast
    with a show "\<exists>st' new. dump_controller h env v name addr st = Some (Inr st') \<and>
               trace st' = trace st @ new \<and> queried new = [addr]"
      by (simp add: dump_controller_def Let_def st0_def)
  qed
qed

lemma sample_present: "present sample_env b = (b = 3 \<or> b = 7)"
  by (simp add: present_def sample_env_def)

lemma sample_failing: "failing sample_env b = (b = 9)"
  by (simp add: failing_def sample_env_def)

lemma sample_reported:
  "filter (\<lambda>a. present sample_env (of_nat a)) [1..<USB_MAX_DEVICES sample_usb_h] = [3, 7]"
  by (simp add: sample_present sample_usb_h_def upt_rec)

lemma sample_warned:
  "filter (\<lambda>a. failing sample_env (of_nat a)) [1..<USB_MAX_DEVICES sample_usb_h] = [9]"
  by (simp add: sample_failing sample_usb_h_def upt_rec)

theorem dump_controller_enumerates_witness:
  "USB_MAX_DEVICES sample_usb_h \<le> 255 \<and>
   (\<exists>st' new. dump_controller sample_usb_h sample_env 0 ''/dev/usb0'' 0 sample_state
                 = Some (Inr st') \<and>
      trace st' = [Printf (''Controller %s:'' @ NL) [S ''/dev/usb0'']] @ new \<and>
      queried new = map of_nat [1..<128] \<and> reported new = [3, 7] \<and> warned new = [9]) \<and>
   (3 :: byte) \<noteq> 0 \<and> unat (3 :: byte) < USB_MAX_DEVICES sample_usb_h \<and>
   (\<exists>st' new. dump_controller sample_usb_h sample_env 0 ''/dev/usb0'' 3 sample_state
                 = Some (Inr st') \<and>
      trace st' = new \<and> queried new = [3])"
proof -
  have max: "USB_MAX_DEVICES sample_usb_h \<le> 255" by (simp add: sample_usb_h_def)
  have m: "USB_MAX_DEVICES sample_usb_h = 128" by (simp add: sample_usb_h_def)
  have a: "(3 :: byte) \<noteq> 0 \<and> unat (3 :: byte) < USB_MAX_DEVICES sample_usb_h"
    by (simp add: sample_usb_h_def)
  from dump_controller_enumerates[OF max, of sample_env 0 "''/dev/usb0''" sample_state 3]
  show ?thesis
    unfolding sample_reported sample_warned
    using max a by (simp add: sample_state_def m)
qed


subsection \<open>Failed queries\<close>

lemma dump_device_query_failed:
  "get_deviceinfo env addr = Inl e \<Longrightarrow>
     dump_device h env v addr st =
       Inr (st\<lparr>trace := trace st @ failed_query USB_DEVICEINFO addr e\<rparr>)"
  by (simp add: dump_device_def failed_query_def warn_unless_enxio_def)

lemma print_device_query_failed:
  "get_ddesc env addr = Inl e \<Longrightarrow>
     print_device env addr tr = tr @ failed_query USB_DEVICE_GET_DDESC addr e"
  by (simp add: print_device_def failed_query_def warn_unless_enxio_def)

lemma print_config_query_failed:
  "get_cdesc env addr c = Inl e \<Longrightarrow>
     print_config h env addr c q tr = (tr @ failed_query USB_DEVICE_GET_CDESC addr e, 0)"
  by (simp add: print_config_def failed_query_def warn_unless_enxio_def)

lemma print_full_query_failed:
  "malloc_ok env (unat w) \<Longrightarrow> get_fdesc env addr c (unat w) = Inl e \<Longrightarrow>
     print_full env addr c w tr =
       Some (Inr (tr @ Malloc (unat w) # failed_query USB_DEVICE_GET_FDESC addr e))"
  by (simp add: print_full_def failed_query_def warn_unless_enxio_def)

lemma print_full_malloc_failed:
  "\<not> malloc_ok env (unat w) \<Longrightarrow> print_full env addr c w tr = Some (Inl (Errx ''malloc''))"
  by (simp add: print_full_def)

subsection \<open>Who calls errx\<close>

lemma rd_no_errx: "rd buf i \<noteq> Inl (Errx m)"
  by (simp add: rd_def)

lemma bnd_errx_iff:
  "(bnd x f = Inl (Errx m)) = (x = Inl (Errx m) \<or> (\<exists>y. x = Inr y \<and> f y = Inl (Errx m)))"
  by (cases x) (simp_all add: bnd_def)

lemma dump_bytes_no_errx: "dump_bytes buf cur is \<noteq> Inl (Errx m)"
  by (induction "is") (simp_all add: bnd_errx_iff rd_no_errx)

lemma print_fconfig_no_errx: "print_fconfig buf cur \<noteq> Inl (Errx m)"
  by (simp add: print_fconfig_def bnd_errx_iff rd_no_errx)

lemma print_iface_no_errx: "print_iface buf cur \<noteq> Inl (Errx m)"
  by (simp add: print_iface_def bnd_errx_iff rd_no_errx)

lemma print_endpt_no_errx: "print_endpt buf cur \<noteq> Inl (Errx m)"
  by (simp add: print_endpt_def bnd_errx_iff rd_no_errx)

lemma print_unknown_no_errx: "print_unknown buf cur \<noteq> Inl (Errx m)"
  by (simp add: print_unknown_def bnd_errx_iff rd_no_errx dump_bytes_no_errx)

lemma dispatch_no_errx: "dispatch buf cur \<noteq> Inl (Errx m)"
  by (simp add: dispatch_def bnd_errx_iff rd_no_errx print_fconfig_no_errx
      print_iface_no_errx print_endpt_no_errx print_unknown_no_errx)

lemma walk_no_errx:
  assumes ret: "walk b c a = Some y"
  shows "y \<noteq> Inl (Errx m)"
proof (rule walk.raw_induct[OF _ ret])
  fix walk' :: "byte list \<Rightarrow> nat \<Rightarrow> event list list \<Rightarrow> (abort + event list list) option"
    and b c a y
  assume IH: "\<And>b c a y. walk' b c a = Some y \<Longrightarrow> y \<noteq> Inl (Errx m)"
  assume step: "(if c < length b then
        (case dispatch b c of
           Inl a \<Rightarrow> Some (Inl a)
         | Inr out \<Rightarrow>
             (case rd b c of
                Inl a \<Rightarrow> Some (Inl a)
              | Inr l \<Rightarrow> walk' b (c + unat l) (a @ [out])))
      else Some (Inr a)) = Some y"
  then show "y \<noteq> Inl (Errx m)"
    using IH dispatch_no_errx[of b c m] rd_no_errx[of b c m]
    by (auto split: if_splits sum.splits)
qed

lemma print_full_errx:
  "print_full env addr c w tr = Some (Inl (Errx m)) \<Longrightarrow> \<not> malloc_ok env (unat w)"
  using walk_no_errx[of "map _ [0..<unat w]" 0 "[]" _ m]
  by (auto simp: print_full_def split: if_splits sum.splits option.splits)

lemma full_dump_addr_errx:
  "full_dump_addr h env addr c tr = Some (Inl (Errx m)) \<Longrightarrow> \<exists>n. \<not> malloc_ok env n"
  by (auto simp: full_dump_addr_def split: prod.splits dest: print_full_errx)

lemma full_dump_loop_errx:
  assumes ret: "full_dump_loop h env c addr tr = Some y"
  shows "y = Inl (Errx m) \<longrightarrow> (\<exists>n. \<not> malloc_ok env n)"
proof (rule full_dump_loop.raw_induct[OF _ ret])
  fix loop :: "usb_h \<Rightarrow> env \<Rightarrow> int \<Rightarrow> byte \<Rightarrow> event list \<Rightarrow> (abort + event list) option"
    and h env c addr tr y
  assume IH: "\<And>h env c addr tr y. loop h env c addr tr = Some y \<Longrightarrow>
      y = Inl (Errx m) \<longrightarrow> (\<exists>n. \<not> malloc_ok env n)"
  assume step: "(if unat addr < USB_MAX_DEVICES h then
        (case full_dump_addr h env addr c tr of
           None \<Rightarrow> None
         | Some (Inl a) \<Rightarrow> Some (Inl a)
         | Some (Inr tr') \<Rightarrow> loop h env c (addr + 1) tr')
      else Some (Inr tr)) = Some y"
  then show "y = Inl (Errx m) \<longrightarrow> (\<exists>n. \<not> malloc_ok env n)"
    using IH full_dump_addr_errx[of h env addr c tr m]
    by (auto split: if_splits sum.splits option.splits)
qed

lemma dump_device_no_errx: "dump_device h env v addr st \<noteq> Inl (Errx m)"
proof (cases "get_deviceinfo env addr")
  case (Inl e)
  then show ?thesis by (simp add: dump_device_def)
next
  case (Inr di)
  obtain ports where "(if 1 < v then port_tier h di else Inr []) = Inr ports"
    using port_tier_ok[of h di] by (cases "1 < v") auto
  with Inr show ?thesis by (simp add: dump_device_def bnd_def)
qed

lemma dump_controller_loop_no_errx:
  assumes ret: "dump_controller_loop h env v addr st = Some y"
  shows "y \<noteq> Inl (Errx m)"
proof (rule dump_controller_loop.raw_induct[OF _ ret])
  fix loop :: "usb_h \<Rightarrow> env \<Rightarrow> int \<Rightarrow> byte \<Rightarrow> state \<Rightarrow> (abort + state) option"
    and h env v addr st y
  assume IH: "\<And>h env v addr st y. loop h env v addr st = Some y \<Longrightarrow> y \<noteq> Inl (Errx m)"
  assume step: "(if unat addr < USB_MAX_DEVICES h then
        (case rd (done_marks st) (unat addr) of
           Inl a \<Rightarrow> Some (Inl a)
         | Inr d \<Rightarrow>
             (case (if \<not> d then dump_device h env v addr st else Inr st) of
                Inl a \<Rightarrow> Some (Inl a)
              | Inr st' \<Rightarrow> loop h env v (addr + 1) st'))
      else Some (Inr st)) = Some y"
  then show "y \<noteq> Inl (Errx m)"
    using IH dump_device_no_errx[of h env v addr st m] rd_no_errx[of "done_marks st" "unat addr" m]
    by (auto split: if_splits sum.splits)
qed

lemma dump_device_desc_loop_no_errx:
  assumes ret: "dump_device_desc_loop h env addr tr = Some y"
  shows "y \<noteq> Inl (Errx m)"
proof (rule dump_device_desc_loop.raw_induct[OF _ ret])
  fix loop :: "usb_h \<Rightarrow> env \<Rightarrow> byte \<Rightarrow> event list \<Rightarrow> (abort + event list) option"
    and h env addr tr y
  assume IH: "\<And>h env addr tr y. loop h env addr tr = Some y \<Longrightarrow> y \<noteq> Inl (Errx m)"
  assume step: "(if unat addr < USB_MAX_DEVICES h
      then loop h env (addr + 1) (print_device env addr tr)
      else Some (Inr tr)) = Some y"
  then show "y \<noteq> Inl (Errx m)"
    using IH by (auto split: if_splits)
qed

lemma dump_config_loop_no_errx:
  assumes ret: "dump_config_loop h env c addr tr = Some y"
  shows "y \<noteq> Inl (Errx m)"
proof (rule dump_config_loop.raw_induct[OF _ ret])
  fix loop :: "usb_h \<Rightarrow> env \<Rightarrow> int \<Rightarrow> byte \<Rightarrow> event list \<Rightarrow> (abort + event list) option"
    and h env c addr tr y
  assume IH: "\<And>h env c addr tr y. loop h env c addr tr = Some y \<Longrightarrow> y \<noteq> Inl (Errx m)"
  assume step: "(if unat addr < USB_MAX_DEVICES h
      then loop h env c (addr + 1) (fst (print_config h env addr c False tr))
      else Some (Inr tr)) = Some y"
  then show "y \<noteq> Inl (Errx m)"
    using IH by (auto split: if_splits)
qed

lemma dump_controller_no_errx: "dump_controller h env v name a st \<noteq> Some (Inl (Errx m))"
proof
  assume "dump_controller h env v name a st = Some (Inl (Errx m))"
  then show False
    using dump_device_no_errx[of h env v a _ m]
    by (auto simp: dump_controller_def Let_def split: if_splits
        dest: dump_controller_loop_no_errx[where m = m])
qed

lemma dump_device_desc_no_errx: "dump_device_desc h env name a tr \<noteq> Some (Inl (Errx m))"
proof
  assume "dump_device_desc h env name a tr = Some (Inl (Errx m))"
  then show False
    by (auto simp: dump_device_desc_def split: if_splits
        dest: dump_device_desc_loop_no_errx[where m = m])
qed

lemma dump_config_no_errx: "dump_config h env name a c tr \<noteq> Some (Inl (Errx m))"
proof
  assume "dump_config h env name a c tr = Some (Inl (Errx m))"
  then show False
    by (auto simp: dump_config_def split: if_splits
        dest: dump_config_loop_no_errx[where m = m])
qed

lemma full_dump_errx:
  "full_dump h env name a c tr = Some (Inl (Errx m)) \<Longrightarrow> \<exists>n. \<not> malloc_ok env n"
  using full_dump_loop_errx full_dump_addr_errx
  by (fastforce simp: full_dump_def split: if_splits)

subsection \<open>A run of the full-descriptor decode over a malformed chain\<close>

text \<open>
  C6. The claim: in every decode mode a query that fails with "no such device" gives no
  output and no warning and the operation returns, any other failed query gives a
  warning naming the address and the operation returns, so that the enumeration
  continues, and only a failure to allocate the full-decode buffer ends the whole run.
  The failed queries are handled so, and \<^verbatim>\<open>errx\<close> is called only after a failed
  \<^verbatim>\<open>malloc\<close>; but a run in full-descriptor mode is also ended by the walker. On a
  controller where every allocation succeeds and the device at address 1 returns the
  chain \<open>[9, 33]\<close>, the run over all addresses stops at address 1 in a read outside the
  buffer; where the device returns \<open>[0, 3]\<close>, the run does not return. In neither run is
  an address after 1 queried.
\<close>

theorem full_dump_ended_by_walker:
  "(\<forall>size. malloc_ok (chain_env [9, 33]) size) \<and>
   full_dump sample_usb_h (chain_env [9, 33]) ''/dev/usb0'' 0 0 [] =
     Some (Inl (OutOfBounds 2)) \<and>
   (\<forall>size. malloc_ok (chain_env [0, 3]) size) \<and>
   full_dump sample_usb_h (chain_env [0, 3]) ''/dev/usb0'' 0 0 [] = None"
proof -
  have m: "\<And>chain size. malloc_ok (chain_env chain) size"
    by (simp add: chain_env_def)
  have over: "full_dump_addr sample_usb_h (chain_env [9, 33]) 1 0 tr =
      Some (Inl (OutOfBounds 2))" for tr
    by (simp add: full_dump_addr_def print_config_def print_full_def chain_env_def
        upt_rec walk_overlong_unknown)
  have zero: "full_dump_addr sample_usb_h (chain_env [0, 3]) 1 0 tr = None" for tr
    by (simp add: full_dump_addr_def print_config_def print_full_def chain_env_def
        upt_rec walk_zero_string)
  have one: "Suc 0 < USB_MAX_DEVICES sample_usb_h"
    by (simp add: sample_usb_h_def)
  have r1: "full_dump sample_usb_h (chain_env [9, 33]) ''/dev/usb0'' 0 0 [] =
      Some (Inl (OutOfBounds 2))"
    unfolding full_dump_def
    by (subst full_dump_loop.simps) (simp add: one over)
  have r2: "full_dump sample_usb_h (chain_env [0, 3]) ''/dev/usb0'' 0 0 [] = None"
    unfolding full_dump_def
    by (subst full_dump_loop.simps) (simp add: one zero)
  from m r1 r2 show ?thesis by simp
qed

end
